theory Spec2Isabelle
  imports Complex_Main "HOL-Library.Word"
begin

section \<open>Data of the fire detection script\<close>

text \<open>
  The script \<^verbatim>\<open>fire_project_10052025.py\<close> is one Streamlit page: it loads a YOLO model,
  reads the sidebar settings, opens a camera and runs the detection loop. Everything the
  script takes from outside (the camera, the clock, the session flag, the model's output)
  is an input of the model below; everything it does to the outside (page elements, camera
  calls, sleeps, the alert thread) is an entry of an effect trace.

  A frame is an image of 8-bit channels. Times are the values of \<^verbatim>\<open>time.time()\<close>; they
  are taken as real numbers, and the difference \<^verbatim>\<open>current_time - last_alert_time\<close> as the
  exact one (the cooldown is an integer, and rounding a difference never carries it across
  an integer it does not exceed). String literals are the source's without their leading
  emoji. The sound block after line 118 reads a flag that only the alert thread sets and is
  left out.
\<close>

type_synonym frame = "8 word list list list"

type_synonym timestamp = real

text \<open>A capture object \<^verbatim>\<open>cv2.VideoCapture\<close> is named by the number of captures opened before it.\<close>

type_synonym capture = nat

record box =
  cls :: real
  conf :: real
  xywh :: "real \<times> real \<times> real \<times> real"

text \<open>\<^verbatim>\<open>model(frame, conf=conf_threshold)\<close>, read through \<^verbatim>\<open>results[0].boxes\<close>.\<close>

type_synonym yolo = "frame \<Rightarrow> real \<Rightarrow> box list"

datatype camera_source = Webcam | IP_Camera

record settings =
  camera_option :: camera_source
  ip_cam_url :: string
  conf_threshold :: real
  enable_alerts :: bool
  alert_cooldown :: int

datatype capture_arg = Device nat | Url string

datatype level = Error_msg | Warning_msg | Success_msg

datatype py_error = AttributeError

datatype effect =
    St level string
  | Status_text level string
  | Capture_opened capture_arg capture
  | Capture_read capture
  | Inference frame real
  | Video_image
  | Thread_send_alert timestamp
  | Sleep real
  | Release capture

text \<open>
  What one pass through the \<^verbatim>\<open>while\<close> loop observes: \<^verbatim>\<open>cap.isOpened()\<close> and
  \<^verbatim>\<open>st.session_state["stop_detection"]\<close> in the loop condition, the result of
  \<^verbatim>\<open>cap.read()\<close> (\<open>None\<close> when \<^verbatim>\<open>ret\<close> is false), \<^verbatim>\<open>time.time()\<close>, and whether the
  capture made by \<^verbatim>\<open>init_camera()\<close> after a failed read is opened.
\<close>

record observation =
  is_opened :: bool
  stop_detection :: bool
  read :: "frame option"
  time_now :: timestamp
  reopens :: bool

record loop_state =
  cap :: "capture option"
  last_alert_time :: timestamp
  captures :: nat

datatype control = Next | Break

datatype outcome = Running loop_state | Exited loop_state | Raised py_error

datatype run = In_loop | Completed | Failed py_error

section \<open>The fire classifier (lines 32 and 101)\<close>

definition FIRE_CLASSES :: "int list" where
  "FIRE_CLASSES = [25, 26, 27]"

text \<open>Python's \<^verbatim>\<open>int()\<close> of a float truncates towards zero.\<close>

definition py_int :: "real \<Rightarrow> int" where
  "py_int x = (if 0 \<le> x then \<lfloor>x\<rfloor> else \<lceil>x\<rceil>)"

text \<open>\<^verbatim>\<open>any(int(box.cls) in classes for box in boxes)\<close>\<close>

definition fire_among :: "int list \<Rightarrow> box list \<Rightarrow> bool" where
  "fire_among classes boxes = list_ex (\<lambda>b. py_int (cls b) \<in> set classes) boxes"

definition fire_detected :: "box list \<Rightarrow> bool" where
  "fire_detected boxes = fire_among FIRE_CLASSES boxes"

section \<open>The alert gate (lines 103 to 110)\<close>

text \<open>
  The effects of the branch on \<^verbatim>\<open>fire_detected\<close> and the new value of
  \<^verbatim>\<open>last_alert_time\<close>. The alert thread is started at \<^verbatim>\<open>current_time\<close>; what the thread
  does afterwards (\<^verbatim>\<open>send_alert\<close>) runs beside the loop and is not part of the trace.
\<close>

definition alert_gate :: "settings \<Rightarrow> bool \<Rightarrow> timestamp \<Rightarrow> timestamp \<Rightarrow> effect list \<times> timestamp" where
  "alert_gate s fire current_time last_alert =
     (if fire then
        (if enable_alerts s \<and> current_time - last_alert > real_of_int (alert_cooldown s)
         then ([Status_text Error_msg ''FIRE DETECTED! Please evacuate!'',
                Thread_send_alert current_time], current_time)
         else ([Status_text Error_msg ''FIRE DETECTED! Please evacuate!''], last_alert))
      else ([Status_text Success_msg ''No fire detected''], last_alert))"

text \<open>The times at which alert threads were started, in order.\<close>

fun alert_times :: "effect list \<Rightarrow> timestamp list" where
  "alert_times [] = []"
| "alert_times (Thread_send_alert t # es) = t # alert_times es"
| "alert_times (e # es) = alert_times es"

section \<open>Camera and model set-up (lines 22 to 31 and 55 to 68)\<close>

text \<open>\<^verbatim>\<open>load_model\<close>: the constructor \<^verbatim>\<open>YOLO("yolov8n.pt")\<close> returns a model or raises.\<close>

definition load_model :: "string + yolo \<Rightarrow> effect list \<times> yolo option" where
  "load_model ctor =
     (case ctor of
        Inr m \<Rightarrow> ([], Some m)
      | Inl e \<Rightarrow> ([St Error_msg (''Failed to load model: '' @ e)], None))"

definition capture_arg_of :: "settings \<Rightarrow> capture_arg option" where
  "capture_arg_of s =
     (if camera_option s = Webcam then Some (Device 0)
      else if camera_option s = IP_Camera \<and> ip_cam_url s \<noteq> [] then Some (Url (ip_cam_url s))
      else None)"

text \<open>
  \<^verbatim>\<open>init_camera\<close>: \<open>opens\<close> is the answer of \<^verbatim>\<open>cap.isOpened()\<close> for the new capture,
  \<open>n\<close> the name the capture gets.
\<close>

definition init_camera :: "settings \<Rightarrow> bool \<Rightarrow> nat \<Rightarrow> effect list \<times> capture option" where
  "init_camera s opens n =
     (case capture_arg_of s of
        None \<Rightarrow> ([], None)
      | Some a \<Rightarrow>
          (if \<not> opens then ([St Error_msg ''Failed to initialize camera!''], None)
           else ([Capture_opened a n], Some n)))"

section \<open>The detection loop (lines 83 to 118)\<close>

text \<open>One pass through the body of the \<^verbatim>\<open>while\<close> loop, with the capture \<open>h\<close> in \<^verbatim>\<open>cap\<close>.\<close>

definition loop_body ::
  "settings \<Rightarrow> yolo \<Rightarrow> observation \<Rightarrow> capture \<Rightarrow> loop_state \<Rightarrow> effect list \<times> loop_state \<times> control" where
  "loop_body s model ob h st =
     (case read ob of
        None \<Rightarrow>
          (let (es, c) = init_camera s (reopens ob) (captures st);
               st' = st\<lparr>cap := c, captures := (if c = None then captures st else Suc (captures st))\<rparr>
           in ([Capture_read h, Status_text Warning_msg ''Camera feed lost. Reconnecting...'', Sleep 2] @ es,
               st', if c = None then Break else Next))
      | Some fr \<Rightarrow>
          (let boxes = model fr (conf_threshold s);
               (es, t) = alert_gate s (fire_detected boxes) (time_now ob) (last_alert_time st)
           in ([Capture_read h, Inference fr (conf_threshold s), Video_image] @ es @ [Sleep (5 / 100)],
               st\<lparr>last_alert_time := t\<rparr>, Next)))"

text \<open>
  The \<^verbatim>\<open>while\<close> loop over the observations of its passes. When the observations are used
  up the loop is still running.
\<close>

fun detection_loop ::
  "settings \<Rightarrow> yolo \<Rightarrow> observation list \<Rightarrow> loop_state \<Rightarrow> effect list \<times> outcome" where
  "detection_loop s model [] st = ([], Running st)"
| "detection_loop s model (ob # obs) st =
     (case cap st of
        None \<Rightarrow> ([], Raised AttributeError)
      | Some h \<Rightarrow>
          (if is_opened ob \<and> \<not> stop_detection ob then
             (case loop_body s model ob h st of
                (es, st', Break) \<Rightarrow> (es, Exited st')
              | (es, st', Next) \<Rightarrow>
                  (case detection_loop s model obs st' of (es', r) \<Rightarrow> (es @ es', r)))
           else ([], Exited st)))"

text \<open>Line 84: the state in which the loop is entered, \<open>h\<close> being the first capture.\<close>

definition initial_state :: "capture \<Rightarrow> loop_state" where
  "initial_state h = \<lparr>cap = Some h, last_alert_time = 0, captures = Suc h\<rparr>"

text \<open>Lines 114 and 115, after the loop: \<^verbatim>\<open>cap.release()\<close> and the stop message.\<close>

definition after_loop :: "effect list \<times> outcome \<Rightarrow> effect list \<times> run" where
  "after_loop r =
     (case r of
        (es, Running st) \<Rightarrow> (es, In_loop)
      | (es, Raised e) \<Rightarrow> (es, Failed e)
      | (es, Exited st) \<Rightarrow>
          (case cap st of
             None \<Rightarrow> (es, Failed AttributeError)
           | Some h \<Rightarrow> (es @ [Release h, St Success_msg ''Detection stopped.''], Completed)))"

text \<open>
  The script from \<^verbatim>\<open>load_model()\<close> to the end of the \<^verbatim>\<open>if\<close> at line 118. \<open>stored\<close> is
  the session's \<^verbatim>\<open>stop_detection\<close> flag before the run (false when absent), \<open>button\<close> the
  stop button, \<open>opens\<close> whether the first capture is opened.
\<close>

definition script ::
  "settings \<Rightarrow> string + yolo \<Rightarrow> bool \<Rightarrow> bool \<Rightarrow> bool \<Rightarrow> observation list \<Rightarrow> effect list \<times> run" where
  "script s ctor stored button opens obs =
     (let (e1, model) = load_model ctor;
          stop = (stored \<or> button);
          (e2, c) = init_camera s opens 0
      in case (c, model) of
           (Some h, Some m) \<Rightarrow>
             (if \<not> stop then
                (case after_loop (detection_loop s m obs (initial_state h)) of
                   (es, r) \<Rightarrow> (e1 @ e2 @ es, r))
              else (e1 @ e2 @ [St Warning_msg ''Please configure a valid camera source''], Completed))
         | _ \<Rightarrow> (e1 @ e2 @ [St Warning_msg ''Please configure a valid camera source''], Completed))"

text \<open>A pass of the loop that detects no fire: its read fails, or no box of its frame is a fire class.\<close>

definition no_fire :: "settings \<Rightarrow> yolo \<Rightarrow> observation \<Rightarrow> bool" where
  "no_fire s model ob =
     (case read ob of None \<Rightarrow> True | Some fr \<Rightarrow> \<not> fire_detected (model fr (conf_threshold s)))"

section \<open>The scenario of the specification\<close>

text \<open>
  Concrete inputs for running the definitions: the default settings of the sidebar, a model
  that finds one box of class 26 with confidence 0.7 in every frame that is not empty, and
  a pass of the loop whose capture is open, whose stop flag is not set and whose reopen
  would succeed.
\<close>

definition scenario_settings :: settings where
  "scenario_settings =
     \<lparr>camera_option = Webcam, ip_cam_url = [], conf_threshold = 1 / 2,
      enable_alerts = True, alert_cooldown = 60\<rparr>"

definition scenario_box :: box where
  "scenario_box = \<lparr>cls = 26, conf = 7 / 10, xywh = (0, 0, 1, 1)\<rparr>"

definition scenario_model :: yolo where
  "scenario_model fr c = (if fr \<noteq> [] \<and> c \<le> conf scenario_box then [scenario_box] else [])"

definition pass :: "frame option \<Rightarrow> timestamp \<Rightarrow> observation" where
  "pass fr t = \<lparr>is_opened = True, stop_detection = False, read = fr, time_now = t, reopens = True\<rparr>"

definition fire_frame :: frame where
  "fire_frame = [[[255, 96, 0]]]"

section \<open>Facts about the loop\<close>

lemmas scenario_defs = scenario_settings_def scenario_box_def scenario_model_def pass_def
  fire_frame_def

lemmas run_defs = loop_body_def alert_gate_def fire_detected_def fire_among_def FIRE_CLASSES_def
  py_int_def init_camera_def capture_arg_of_def initial_state_def after_loop_def script_def
  load_model_def

lemma alert_times_append: "alert_times (xs @ ys) = alert_times xs @ alert_times ys"
  by (induction xs rule: alert_times.induct) simp_all

text \<open>A loop that is still running after some passes goes on from the state it reached.\<close>

lemma detection_loop_append:
  "detection_loop s model pre st = (es0, Running st1) \<Longrightarrow>
   detection_loop s model (pre @ obs) st =
     (es0 @ fst (detection_loop s model obs st1), snd (detection_loop s model obs st1))"
proof (induction pre arbitrary: st es0)
  case Nil
  then show ?case by simp
next
  case (Cons ob pre)
  then show ?case
    by (auto split: option.splits if_splits prod.splits control.splits)
qed

lemma alert_gate_cases:
  "alert_gate s fire now prev = (es, t) \<Longrightarrow>
     (alert_times es = [] \<and> t = prev) \<or>
     (alert_times es = [now] \<and> t = now \<and> now - prev > real_of_int (alert_cooldown s))"
  by (auto simp: alert_gate_def split: if_splits)

text \<open>A pass starts no alert thread, or one at its own time, later than the last by more than the cooldown.\<close>

lemma loop_body_alerts:
  assumes "loop_body s model ob h st = (es, st', c)"
  shows "(alert_times es = [] \<and> last_alert_time st' = last_alert_time st) \<or>
         (alert_times es = [time_now ob] \<and> last_alert_time st' = time_now ob \<and>
          time_now ob - last_alert_time st > real_of_int (alert_cooldown s))"
proof (cases "read ob")
  case None
  with assms show ?thesis
    by (auto simp: loop_body_def Let_def init_camera_def split: prod.splits option.splits if_splits)
next
  case (Some fr)
  obtain es1 t where g:
    "alert_gate s (fire_detected (model fr (conf_threshold s))) (time_now ob) (last_alert_time st) = (es1, t)"
    by (cases "alert_gate s (fire_detected (model fr (conf_threshold s))) (time_now ob) (last_alert_time st)")
  from assms Some g
  have "es = [Capture_read h, Inference fr (conf_threshold s), Video_image] @ es1 @ [Sleep (5 / 100)]"
    and "last_alert_time st' = t"
    by (auto simp: loop_body_def Let_def)
  with alert_gate_cases [OF g] show ?thesis
    by (auto simp: alert_times_append)
qed

lemma detection_loop_spaced:
  assumes c: "0 \<le> alert_cooldown s"
  shows "sorted_wrt (\<lambda>t t'. t' - t > real_of_int (alert_cooldown s))
           (last_alert_time st # alert_times (fst (detection_loop s model obs st)))"
proof (induction obs arbitrary: st)
  case Nil
  show ?case by simp
next
  case (Cons ob obs)
  show ?case
  proof (cases "cap st")
    case None
    then show ?thesis by simp
  next
    case (Some h)
    show ?thesis
    proof (cases "is_opened ob \<and> \<not> stop_detection ob")
      case False
      with Some show ?thesis by auto
    next
      case True
      obtain es st' ctl where b: "loop_body s model ob h st = (es, st', ctl)"
        by (cases "loop_body s model ob h st") auto
      let ?rest = "alert_times (fst (detection_loop s model obs st'))"
      let ?gap = "\<lambda>t t'. t' - t > real_of_int (alert_cooldown s)"
      have ih: "sorted_wrt ?gap (last_alert_time st' # ?rest)"
        by (rule Cons.IH)
      have tail: "sorted_wrt ?gap (last_alert_time st # alert_times es @ ?rest)"
        using loop_body_alerts [OF b]
      proof
        assume "alert_times es = [] \<and> last_alert_time st' = last_alert_time st"
        with ih show ?thesis by simp
      next
        assume a: "alert_times es = [time_now ob] \<and> last_alert_time st' = time_now ob \<and>
          time_now ob - last_alert_time st > real_of_int (alert_cooldown s)"
        have "\<forall>t \<in> set ?rest. ?gap (last_alert_time st) t"
        proof
          fix t assume "t \<in> set ?rest"
          with ih a have "t - time_now ob > real_of_int (alert_cooldown s)" by simp
          with a c show "?gap (last_alert_time st) t" by simp
        qed
        with ih a show ?thesis by simp
      qed
      show ?thesis
      proof (cases ctl)
        case Break
        with Some True b tail show ?thesis
          by (auto simp: sorted_wrt_append)
      next
        case Next
        with Some True b tail show ?thesis
          by (auto simp: alert_times_append split: prod.splits)
      qed
    qed
  qed
qed

lemma loop_body_Next_cap:
  "loop_body s model ob h st = (es, st', Next) \<Longrightarrow> cap st \<noteq> None \<Longrightarrow> cap st' \<noteq> None"
  by (auto simp: loop_body_def Let_def split: option.splits prod.splits if_splits)

lemma loop_body_no_fire:
  "loop_body s model ob h st = (es, st', c) \<Longrightarrow> no_fire s model ob \<Longrightarrow>
     alert_times es = [] \<and> last_alert_time st' = last_alert_time st"
  by (auto simp: loop_body_def no_fire_def alert_gate_def init_camera_def Let_def
      split: option.splits prod.splits if_splits)

text \<open>Passes without fire start no alert thread and keep \<^verbatim>\<open>last_alert_time\<close>; a running loop holds a capture.\<close>

lemma running_after_quiet_passes:
  "detection_loop s model pre st = (es0, Running st1) \<Longrightarrow> cap st \<noteq> None \<Longrightarrow>
   list_all (no_fire s model) pre \<Longrightarrow>
     alert_times es0 = [] \<and> last_alert_time st1 = last_alert_time st \<and> cap st1 \<noteq> None"
proof (induction pre arbitrary: st es0)
  case Nil
  then show ?case by simp
next
  case (Cons ob pre)
  from Cons.prems obtain h where h: "cap st = Some h" by auto
  from Cons.prems h have go: "is_opened ob \<and> \<not> stop_detection ob"
    by (auto split: if_splits)
  obtain es st' ctl where b: "loop_body s model ob h st = (es, st', ctl)"
    by (cases "loop_body s model ob h st") auto
  from Cons.prems h go b have ctl: "ctl = Next"
    by (cases ctl) auto
  from Cons.prems h go b ctl obtain es' where
    r: "detection_loop s model pre st' = (es', Running st1)" and e: "es0 = es @ es'"
    by (auto split: prod.splits)
  from b ctl Cons.prems(2) have c': "cap st' \<noteq> None" using loop_body_Next_cap by blast
  from Cons.prems(3) have q: "no_fire s model ob" "list_all (no_fire s model) pre" by simp_all
  from Cons.IH [OF r c' q(2)] loop_body_no_fire [OF b q(1)] e
  show ?case by (simp add: alert_times_append)
qed

text \<open>Settings that name no camera never enter the loop.\<close>

lemma script_without_camera:
  "capture_arg_of s = None \<Longrightarrow>
     script s ctor stored button opens obs =
       (fst (load_model ctor) @ [St Warning_msg ''Please configure a valid camera source''], Completed)"
  by (simp add: script_def init_camera_def split: prod.splits)

section \<open>The claims\<close>

text \<open>
  C1 (cooldown invariant). For every sequence of passes of the detection loop, from any
  state, any two alert threads the loop starts are started at times more than
  \<^verbatim>\<open>alert_cooldown\<close> apart. The times are those at which the threads are started
  (\<^verbatim>\<open>current_time\<close>, read after the detection and stored in \<^verbatim>\<open>last_alert_time\<close>). The sidebar
  keeps the cooldown between 60 and 300; the proof needs only that it is not negative.
\<close>

theorem cooldown_invariant:
  assumes "0 \<le> alert_cooldown s"
  shows "\<forall>i j. i < j \<longrightarrow> j < length (alert_times (fst (detection_loop s model obs st))) \<longrightarrow>
           alert_times (fst (detection_loop s model obs st)) ! j
             - alert_times (fst (detection_loop s model obs st)) ! i
           > real_of_int (alert_cooldown s)"
proof -
  have "sorted_wrt (\<lambda>t t'. t' - t > real_of_int (alert_cooldown s))
          (alert_times (fst (detection_loop s model obs st)))"
    using detection_loop_spaced [OF assms, of st model obs] by simp
  then show ?thesis
    by (simp add: sorted_wrt_iff_nth_less)
qed

theorem cooldown_invariant_witness:
  "0 \<le> alert_cooldown scenario_settings \<and>
   alert_times (fst (detection_loop scenario_settings scenario_model
     [pass (Some fire_frame) 100, pass (Some fire_frame) 130, pass (Some fire_frame) 170]
     (initial_state 0))) = [100, 170] \<and>
   (170::real) - 100 > real_of_int (alert_cooldown scenario_settings)"
proof -
  have h: "0 \<le> alert_cooldown scenario_settings"
    by (simp add: scenario_settings_def)
  have run: "alert_times (fst (detection_loop scenario_settings scenario_model
     [pass (Some fire_frame) 100, pass (Some fire_frame) 130, pass (Some fire_frame) 170]
     (initial_state 0))) = [100, 170]"
    by (simp add: run_defs scenario_defs)
  from cooldown_invariant [OF h, of scenario_model
     "[pass (Some fire_frame) 100, pass (Some fire_frame) 130, pass (Some fire_frame) 170]"
     "initial_state 0"]
  have "(0::nat) < 1 \<longrightarrow> 1 < length [100, 170 :: real] \<longrightarrow>
          [100, 170 :: real] ! 1 - [100, 170] ! 0 > real_of_int (alert_cooldown scenario_settings)"
    unfolding run by blast
  with h run show ?thesis by simp
qed

text \<open>
  C2 (alert policy). If no fire is detected, or alerts are disabled, or
  \<open>now - last_alert_time \<le> alert_cooldown\<close>, no alert thread is started and
  \<^verbatim>\<open>last_alert_time\<close> keeps its value; if fire is detected, alerts are enabled and
  \<open>now - last_alert_time > alert_cooldown\<close>, one alert thread is started at \<open>now\<close> and
  \<^verbatim>\<open>last_alert_time\<close> becomes \<open>now\<close>. With alerts enabled and a cooldown of 60: from
  \<^verbatim>\<open>last_alert_time\<close> 0 a fire at 100 alerts and sets it to 100, a fire at 130 is suppressed,
  a fire at 170 alerts again.
\<close>

theorem alert_policy:
  "(\<not> fire \<or> \<not> enable_alerts s \<or> now - prev \<le> real_of_int (alert_cooldown s) \<longrightarrow>
      alert_times (fst (alert_gate s fire now prev)) = [] \<and> snd (alert_gate s fire now prev) = prev) \<and>
   (fire \<and> enable_alerts s \<and> now - prev > real_of_int (alert_cooldown s) \<longrightarrow>
      alert_times (fst (alert_gate s fire now prev)) = [now] \<and> snd (alert_gate s fire now prev) = now) \<and>
   (enable_alerts s \<and> alert_cooldown s = 60 \<longrightarrow>
      alert_times (fst (alert_gate s True 100 0)) = [100] \<and> snd (alert_gate s True 100 0) = 100 \<and>
      alert_times (fst (alert_gate s True 130 100)) = [] \<and> snd (alert_gate s True 130 100) = 100 \<and>
      alert_times (fst (alert_gate s True 170 100)) = [170] \<and> snd (alert_gate s True 170 100) = 170)"
  by (simp add: alert_gate_def)

theorem alert_policy_witness:
  "enable_alerts scenario_settings \<and> alert_cooldown scenario_settings = 60 \<and>
   (100::real) - 0 > real_of_int (alert_cooldown scenario_settings) \<and>
   (130::real) - 100 \<le> real_of_int (alert_cooldown scenario_settings) \<and>
   alert_times (fst (alert_gate scenario_settings True 100 0)) = [100] \<and>
   snd (alert_gate scenario_settings True 100 0) = 100 \<and>
   alert_times (fst (alert_gate scenario_settings True 130 100)) = [] \<and>
   snd (alert_gate scenario_settings True 130 100) = 100 \<and>
   alert_times (fst (alert_gate scenario_settings True 170 100)) = [170] \<and>
   snd (alert_gate scenario_settings True 170 100) = 170"
proof -
  have h: "enable_alerts scenario_settings \<and> alert_cooldown scenario_settings = 60"
    by (simp add: scenario_settings_def)
  have g: "True \<and> enable_alerts scenario_settings \<and>
      (100::real) - 0 > real_of_int (alert_cooldown scenario_settings)"
    by (simp add: scenario_settings_def)
  have k: "\<not> True \<or> \<not> enable_alerts scenario_settings \<or>
      (130::real) - 100 \<le> real_of_int (alert_cooldown scenario_settings)"
    by (simp add: scenario_settings_def)
  show ?thesis
    using h g k alert_policy [of True scenario_settings 100 0]
      alert_policy [of True scenario_settings 130 100]
    by simp
qed

text \<open>
  C3 (fire classifier). The classifier is true exactly when some box has a class
  (\<^verbatim>\<open>int(box.cls)\<close>) in the fire class list; it is false for no boxes; changing the
  confidences and bounding boxes does not change it; and with the script's
  \<^verbatim>\<open>FIRE_CLASSES\<close> the fire classes are 25, 26 and 27.
\<close>

theorem fire_classifier:
  "(fire_among classes boxes \<longleftrightarrow> (\<exists>b \<in> set boxes. py_int (cls b) \<in> set classes)) \<and>
   \<not> fire_among classes [] \<and>
   fire_among classes (map (\<lambda>b. b\<lparr>conf := f b, xywh := g b\<rparr>) boxes) = fire_among classes boxes \<and>
   (fire_detected boxes \<longleftrightarrow> (\<exists>b \<in> set boxes. py_int (cls b) \<in> {25, 26, 27}))"
  by (simp add: fire_among_def fire_detected_def FIRE_CLASSES_def list_ex_iff)

theorem fire_classifier_witness:
  "fire_among [25, 26, 27] [scenario_box] \<and> fire_detected [scenario_box] \<and>
   \<not> fire_detected [] \<and> \<not> fire_detected [scenario_box\<lparr>cls := 3\<rparr>] \<and>
   fire_detected [scenario_box\<lparr>cls := 3\<rparr>, scenario_box\<lparr>conf := 0, xywh := (5, 5, 2, 2)\<rparr>]"
  using fire_classifier [where classes = "[25, 26, 27]" and boxes = "[scenario_box]"
      and f = conf and g = xywh]
  by (simp add: scenario_box_def fire_detected_def fire_among_def FIRE_CLASSES_def py_int_def)

text \<open>
  C4 (recovery). In every run of the loop in which, after any passes that left it running,
  a read fails and the reopen succeeds, the loop goes on: the pass shows the reconnecting
  warning, sleeps 2 seconds and opens one new capture, and the loop then continues on the
  remaining passes with the new capture and the same \<^verbatim>\<open>last_alert_time\<close>; when the failed
  pass is the last one observed, the loop is still running.
\<close>

theorem read_failure_recovery:
  assumes "detection_loop s model pre st = (es0, Running st1)"
    and "cap st1 = Some h"
    and "is_opened ob" and "\<not> stop_detection ob" and "read ob = None"
    and "capture_arg_of s = Some a" and "reopens ob"
  shows "detection_loop s model (pre @ ob # obs) st =
           (es0 @ [Capture_read h, Status_text Warning_msg ''Camera feed lost. Reconnecting...'',
                   Sleep 2, Capture_opened a (captures st1)]
               @ fst (detection_loop s model obs
                        (st1\<lparr>cap := Some (captures st1), captures := Suc (captures st1)\<rparr>)),
            snd (detection_loop s model obs
                   (st1\<lparr>cap := Some (captures st1), captures := Suc (captures st1)\<rparr>))) \<and>
         detection_loop s model (pre @ [ob]) st =
           (es0 @ [Capture_read h, Status_text Warning_msg ''Camera feed lost. Reconnecting...'',
                   Sleep 2, Capture_opened a (captures st1)],
            Running (st1\<lparr>cap := Some (captures st1), captures := Suc (captures st1)\<rparr>))"
proof -
  have body: "loop_body s model ob h st1 =
      ([Capture_read h, Status_text Warning_msg ''Camera feed lost. Reconnecting...'', Sleep 2,
        Capture_opened a (captures st1)],
       st1\<lparr>cap := Some (captures st1), captures := Suc (captures st1)\<rparr>, Next)"
    using assms(5-7) by (simp add: loop_body_def init_camera_def)
  have step: "detection_loop s model (ob # xs) st1 =
      ([Capture_read h, Status_text Warning_msg ''Camera feed lost. Reconnecting...'', Sleep 2,
        Capture_opened a (captures st1)]
         @ fst (detection_loop s model xs
                  (st1\<lparr>cap := Some (captures st1), captures := Suc (captures st1)\<rparr>)),
       snd (detection_loop s model xs
              (st1\<lparr>cap := Some (captures st1), captures := Suc (captures st1)\<rparr>)))" for xs
    using assms(2-4) body by (simp add: case_prod_unfold)
  show ?thesis
    using detection_loop_append [OF assms(1), of "ob # obs"]
      detection_loop_append [OF assms(1), of "[ob]"] step [of obs] step [of "[]"]
    by simp
qed

theorem read_failure_recovery_witness:
  "detection_loop scenario_settings scenario_model
     [pass (Some []) 10, pass None 20, pass (Some fire_frame) 100] (initial_state 0) =
     ([Capture_read 0, Inference [] (1 / 2), Video_image, Status_text Success_msg ''No fire detected'',
       Sleep (5 / 100),
       Capture_read 0, Status_text Warning_msg ''Camera feed lost. Reconnecting...'', Sleep 2,
       Capture_opened (Device 0) 1,
       Capture_read 1, Inference fire_frame (1 / 2), Video_image,
       Status_text Error_msg ''FIRE DETECTED! Please evacuate!'', Thread_send_alert 100,
       Sleep (5 / 100)],
      Running \<lparr>cap = Some 1, last_alert_time = 100, captures = 2\<rparr>)"
proof -
  have pre: "detection_loop scenario_settings scenario_model [pass (Some []) 10] (initial_state 0) =
      ([Capture_read 0, Inference [] (1 / 2), Video_image, Status_text Success_msg ''No fire detected'',
        Sleep (5 / 100)], Running (initial_state 0))"
    by (simp add: run_defs scenario_defs)
  have rest: "detection_loop scenario_settings scenario_model [pass (Some fire_frame) 100]
       ((initial_state 0)\<lparr>cap := Some (captures (initial_state 0)),
          captures := Suc (captures (initial_state 0))\<rparr>) =
      ([Capture_read 1, Inference fire_frame (1 / 2), Video_image,
       Status_text Error_msg ''FIRE DETECTED! Please evacuate!'', Thread_send_alert 100,
       Sleep (5 / 100)], Running \<lparr>cap = Some 1, last_alert_time = 100, captures = 2\<rparr>)"
    by (simp add: run_defs scenario_defs)
  show ?thesis
    using read_failure_recovery [OF pre, of 0 "pass None 20" "Device 0" "[pass (Some fire_frame) 100]"] rest
    by (simp add: pass_def capture_arg_of_def scenario_settings_def initial_state_def)
qed

text \<open>
  C5 (reopen failure). In every run in which, after any passes that left the loop running,
  a read fails and the reopen fails too, the loop ends whatever would be observed later:
  the last things shown are the reconnecting warning and the error
  \<^verbatim>\<open>Failed to initialize camera!\<close>, and the stop message \<^verbatim>\<open>Detection stopped.\<close> is not shown,
  because \<^verbatim>\<open>cap.release()\<close> at line 114 raises on the absent capture.
\<close>

theorem reopen_failure_is_fatal:
  assumes "detection_loop s model pre st = (es0, Running st1)"
    and "cap st1 = Some h"
    and "is_opened ob" and "\<not> stop_detection ob" and "read ob = None"
    and "capture_arg_of s = Some a" and "\<not> reopens ob"
  shows "after_loop (detection_loop s model (pre @ ob # obs) st) =
           (es0 @ [Capture_read h, Status_text Warning_msg ''Camera feed lost. Reconnecting...'',
                   Sleep 2, St Error_msg ''Failed to initialize camera!''],
            Failed AttributeError)"
proof -
  have body: "loop_body s model ob h st1 =
      ([Capture_read h, Status_text Warning_msg ''Camera feed lost. Reconnecting...'', Sleep 2,
        St Error_msg ''Failed to initialize camera!''],
       st1\<lparr>cap := None, captures := captures st1\<rparr>, Break)"
    using assms(5-7) by (simp add: loop_body_def init_camera_def)
  have step: "detection_loop s model (ob # obs) st1 =
      ([Capture_read h, Status_text Warning_msg ''Camera feed lost. Reconnecting...'', Sleep 2,
        St Error_msg ''Failed to initialize camera!''],
       Exited (st1\<lparr>cap := None, captures := captures st1\<rparr>))"
    using assms(2-4) body by simp
  show ?thesis
    using detection_loop_append [OF assms(1), of "ob # obs"] step
    by (simp add: after_loop_def)
qed

theorem reopen_failure_is_fatal_witness:
  "after_loop (detection_loop scenario_settings scenario_model
     [pass (Some []) 10, (pass None 20)\<lparr>reopens := False\<rparr>, pass (Some fire_frame) 100]
     (initial_state 0)) =
     ([Capture_read 0, Inference [] (1 / 2), Video_image, Status_text Success_msg ''No fire detected'',
       Sleep (5 / 100),
       Capture_read 0, Status_text Warning_msg ''Camera feed lost. Reconnecting...'', Sleep 2,
       St Error_msg ''Failed to initialize camera!''],
      Failed AttributeError)"
proof -
  have pre: "detection_loop scenario_settings scenario_model [pass (Some []) 10] (initial_state 0) =
      ([Capture_read 0, Inference [] (1 / 2), Video_image, Status_text Success_msg ''No fire detected'',
        Sleep (5 / 100)], Running (initial_state 0))"
    by (simp add: run_defs scenario_defs)
  show ?thesis
    using reopen_failure_is_fatal [OF pre, of 0 "(pass None 20)\<lparr>reopens := False\<rparr>" "Device 0"
        "[pass (Some fire_frame) 100]"]
    by (simp add: pass_def capture_arg_of_def scenario_settings_def initial_state_def)
qed

text \<open>
  C6 (release on every exit). The claim fails on the script. When the first read fails and
  the reopen fails, \<^verbatim>\<open>cap\<close> is \<^verbatim>\<open>None\<close> at line 114: \<^verbatim>\<open>cap.release()\<close> raises
  \<^verbatim>\<open>AttributeError\<close> and the capture opened at the start is never released. When the reopen
  succeeds and the loop is then stopped, the script releases the second capture only.
\<close>

theorem release_on_absent_capture:
  "script scenario_settings (Inr scenario_model) False False True
     [(pass None 20)\<lparr>reopens := False\<rparr>] =
     ([Capture_opened (Device 0) 0,
       Capture_read 0, Status_text Warning_msg ''Camera feed lost. Reconnecting...'', Sleep 2,
       St Error_msg ''Failed to initialize camera!''],
      Failed AttributeError) \<and>
   script scenario_settings (Inr scenario_model) False False True
     [pass None 20, (pass None 30)\<lparr>stop_detection := True\<rparr>] =
     ([Capture_opened (Device 0) 0,
       Capture_read 0, Status_text Warning_msg ''Camera feed lost. Reconnecting...'', Sleep 2,
       Capture_opened (Device 0) 1, Release 1, St Success_msg ''Detection stopped.''],
      Completed)"
  by (simp add: run_defs scenario_defs)

text \<open>
  C7 (model load failure). When \<^verbatim>\<open>YOLO("yolov8n.pt")\<close> raises, the script shows the error
  \<^verbatim>\<open>Failed to load model: ...\<close> once, then what \<^verbatim>\<open>init_camera()\<close> shows, then the warning of
  the \<^verbatim>\<open>else\<close> branch at line 118, and completes without raising; it reads no frame and
  runs no inference, whatever the loop would have observed.
\<close>

theorem model_load_failure:
  "script s (Inl e) stored button opens obs =
     (St Error_msg (''Failed to load model: '' @ e) # fst (init_camera s opens 0) @
        [St Warning_msg ''Please configure a valid camera source''],
      Completed) \<and>
   count_list (fst (script s (Inl e) stored button opens obs))
     (St Error_msg (''Failed to load model: '' @ e)) = 1 \<and>
   (\<forall>fr c. Inference fr c \<notin> set (fst (script s (Inl e) stored button opens obs))) \<and>
   (\<forall>h. Capture_read h \<notin> set (fst (script s (Inl e) stored button opens obs)))"
  by (auto simp: script_def load_model_def init_camera_def split: option.splits prod.splits)

theorem model_load_failure_witness:
  "script scenario_settings (Inl ''no weights'') False False True [pass (Some fire_frame) 100] =
     ([St Error_msg ''Failed to load model: no weights'', Capture_opened (Device 0) 0,
       St Warning_msg ''Please configure a valid camera source''],
      Completed)"
  using model_load_failure [of scenario_settings "''no weights''" False False True
      "[pass (Some fire_frame) 100]"]
  by (simp add: init_camera_def capture_arg_of_def scenario_settings_def)

text \<open>
  C8 (stop at the loop condition). The stop flag is read in the loop condition only. In
  every run in which, after any passes that left the loop running, the flag is seen set at
  the head of a pass, the loop ends there: the passes before it have run to their end,
  nothing is read afterwards whatever would be observed later, the capture is released and
  the stop message is shown. The body of a pass does not depend on the flag.
\<close>

theorem stop_at_iteration_boundary:
  assumes "detection_loop s model pre st = (es0, Running st1)"
    and "cap st1 = Some h"
    and "stop_detection ob"
  shows "after_loop (detection_loop s model (pre @ ob # obs) st) =
           (es0 @ [Release h, St Success_msg ''Detection stopped.''], Completed) \<and>
         loop_body s model (ob'\<lparr>stop_detection := b\<rparr>) h' st' = loop_body s model ob' h' st'"
proof -
  have step: "detection_loop s model (ob # obs) st1 = ([], Exited st1)"
    using assms(2,3) by simp
  have "after_loop (detection_loop s model (pre @ ob # obs) st) =
           (es0 @ [Release h, St Success_msg ''Detection stopped.''], Completed)"
    using detection_loop_append [OF assms(1), of "ob # obs"] step assms(2)
    by (simp add: after_loop_def)
  moreover have "loop_body s model (ob'\<lparr>stop_detection := b\<rparr>) h' st' = loop_body s model ob' h' st'"
    by (simp add: loop_body_def split: option.splits)
  ultimately show ?thesis by simp
qed

theorem stop_at_iteration_boundary_witness:
  "after_loop (detection_loop scenario_settings scenario_model
     [pass (Some fire_frame) 100, (pass (Some fire_frame) 200)\<lparr>stop_detection := True\<rparr>,
      pass (Some fire_frame) 300]
     (initial_state 0)) =
     ([Capture_read 0, Inference fire_frame (1 / 2), Video_image,
       Status_text Error_msg ''FIRE DETECTED! Please evacuate!'', Thread_send_alert 100,
       Sleep (5 / 100), Release 0, St Success_msg ''Detection stopped.''],
      Completed)"
proof -
  have pre: "detection_loop scenario_settings scenario_model [pass (Some fire_frame) 100] (initial_state 0) =
      ([Capture_read 0, Inference fire_frame (1 / 2), Video_image,
        Status_text Error_msg ''FIRE DETECTED! Please evacuate!'', Thread_send_alert 100,
        Sleep (5 / 100)], Running ((initial_state 0)\<lparr>last_alert_time := 100\<rparr>))"
    by (simp add: run_defs scenario_defs)
  show ?thesis
    using stop_at_iteration_boundary [OF pre, of 0 "(pass (Some fire_frame) 200)\<lparr>stop_detection := True\<rparr>"
        "[pass (Some fire_frame) 300]"]
    by (simp add: pass_def initial_state_def)
qed

text \<open>
  C10 (first alert). The loop is entered with \<^verbatim>\<open>last_alert_time = 0\<close>. In every run in
  which the passes so far detected no fire and left the loop running, a pass that detects
  fire with alerts enabled at a time greater than \<^verbatim>\<open>alert_cooldown\<close> starts the alert
  thread in that very pass, at that time; no alert thread was started before.
\<close>

theorem first_fire_alerts_at_once:
  assumes "detection_loop s model pre (initial_state h0) = (es0, Running st1)"
    and "list_all (no_fire s model) pre"
    and "is_opened ob" and "\<not> stop_detection ob" and "read ob = Some fr"
    and "fire_detected (model fr (conf_threshold s))"
    and "enable_alerts s" and "time_now ob > real_of_int (alert_cooldown s)"
  shows "last_alert_time (initial_state h0) = 0 \<and> alert_times es0 = [] \<and>
         (\<exists>h. cap st1 = Some h \<and>
           detection_loop s model (pre @ ob # obs) (initial_state h0) =
             (es0 @ [Capture_read h, Inference fr (conf_threshold s), Video_image,
                     Status_text Error_msg ''FIRE DETECTED! Please evacuate!'',
                     Thread_send_alert (time_now ob), Sleep (5 / 100)]
                 @ fst (detection_loop s model obs (st1\<lparr>last_alert_time := time_now ob\<rparr>)),
              snd (detection_loop s model obs (st1\<lparr>last_alert_time := time_now ob\<rparr>))))"
proof -
  have c0: "cap (initial_state h0) \<noteq> None" and l0: "last_alert_time (initial_state h0) = 0"
    by (simp_all add: initial_state_def)
  from running_after_quiet_passes [OF assms(1) c0 assms(2)] l0
  have quiet: "alert_times es0 = []" and l1: "last_alert_time st1 = 0" and "cap st1 \<noteq> None"
    by simp_all
  then obtain h where h: "cap st1 = Some h" by auto
  have gate: "alert_gate s True (time_now ob) 0 =
      ([Status_text Error_msg ''FIRE DETECTED! Please evacuate!'', Thread_send_alert (time_now ob)],
       time_now ob)"
    using assms(7,8) by (simp add: alert_gate_def)
  have body: "loop_body s model ob h st1 =
      ([Capture_read h, Inference fr (conf_threshold s), Video_image,
        Status_text Error_msg ''FIRE DETECTED! Please evacuate!'',
        Thread_send_alert (time_now ob), Sleep (5 / 100)],
       st1\<lparr>last_alert_time := time_now ob\<rparr>, Next)"
    using assms(5,6) l1 gate by (simp add: loop_body_def)
  have step: "detection_loop s model (ob # obs) st1 =
      ([Capture_read h, Inference fr (conf_threshold s), Video_image,
        Status_text Error_msg ''FIRE DETECTED! Please evacuate!'',
        Thread_send_alert (time_now ob), Sleep (5 / 100)]
         @ fst (detection_loop s model obs (st1\<lparr>last_alert_time := time_now ob\<rparr>)),
       snd (detection_loop s model obs (st1\<lparr>last_alert_time := time_now ob\<rparr>)))"
    using h assms(3,4) body by (simp add: case_prod_unfold)
  show ?thesis
    using detection_loop_append [OF assms(1), of "ob # obs"] step h quiet l0 by simp
qed

theorem first_fire_alerts_at_once_witness:
  "detection_loop scenario_settings scenario_model
     [pass (Some []) 10, pass None 20, pass (Some fire_frame) 100] (initial_state 0) =
     ([Capture_read 0, Inference [] (1 / 2), Video_image, Status_text Success_msg ''No fire detected'',
       Sleep (5 / 100),
       Capture_read 0, Status_text Warning_msg ''Camera feed lost. Reconnecting...'', Sleep 2,
       Capture_opened (Device 0) 1,
       Capture_read 1, Inference fire_frame (1 / 2), Video_image,
       Status_text Error_msg ''FIRE DETECTED! Please evacuate!'', Thread_send_alert 100,
       Sleep (5 / 100)],
      Running \<lparr>cap = Some 1, last_alert_time = 100, captures = 2\<rparr>)"
proof -
  have pre: "detection_loop scenario_settings scenario_model [pass (Some []) 10, pass None 20]
       (initial_state 0) =
      ([Capture_read 0, Inference [] (1 / 2), Video_image, Status_text Success_msg ''No fire detected'',
        Sleep (5 / 100),
        Capture_read 0, Status_text Warning_msg ''Camera feed lost. Reconnecting...'', Sleep 2,
        Capture_opened (Device 0) 1],
       Running \<lparr>cap = Some 1, last_alert_time = 0, captures = 2\<rparr>)"
    by (simp add: run_defs scenario_defs)
  have quiet: "list_all (no_fire scenario_settings scenario_model) [pass (Some []) 10, pass None 20]"
    by (simp add: no_fire_def run_defs scenario_defs)
  have fire: "fire_detected (scenario_model fire_frame (conf_threshold scenario_settings))"
    by (simp add: run_defs scenario_defs)
  have late: "time_now (pass (Some fire_frame) 100) > real_of_int (alert_cooldown scenario_settings)"
    by (simp add: scenario_defs)
  have o: "is_opened (pass (Some fire_frame) 100)" "\<not> stop_detection (pass (Some fire_frame) 100)"
    "read (pass (Some fire_frame) 100) = Some fire_frame" "enable_alerts scenario_settings"
    by (simp_all add: scenario_defs)
  from first_fire_alerts_at_once [OF pre quiet o(1-3) fire o(4) late, of "[]"]
  show ?thesis
    by (auto simp add: pass_def scenario_settings_def simp del: detection_loop.simps(2))
qed

end
